theory Spec2Isabelle
  imports Complex_Main "HOL-Library.Word"
begin

chapter \<open>The order filter of 0x-mesh (orderfilter/filter.go)\<close>

text \<open>
  The package builds two JSON-Schema validators for a chain and a custom order schema,
  and encodes the pair (chainID, custom order schema) into a pubsub topic string and back.
  The Go functions of the file are embedded below under their own names. What they call
  in the Go standard library (fmt, strings, encoding/base64) and in the packages
  canonicaljson-go, gojsonschema and ethereum is not part of the file: the standard
  library is written out after its documented behaviour, the JSON-Schema engine is written
  out for the keywords that occur in the schema literals of the file, and what stays
  external (the address table, the JSON readers, canonical JSON) is a field of the record
  \<open>collaborators\<close>.
\<close>

section \<open>Go values\<close>

text \<open>A Go string is a sequence of bytes, as \<^typ>\<open>string\<close> is. Go's \<open>int\<close> has 64 bits.\<close>

type_synonym go_int = "64 word"

text \<open>
  The errors that the functions of the file return. \<open>fmt.Errorf\<close> results are kept as a
  constructor with the argument of the message; errors coming from a collaborator carry
  the collaborator's own text.
\<close>

datatype error =
    WrongTopicVersionError (expectedVersion: go_int) (actualVersion: go_int)
  | CouldNotParseTopicVersion string
  | CouldNotParseChainIDAndSchema string
  | CouldNotBase64Decode string
  | ContractAddressesError string
  | SchemaLoaderError string
  | DocumentLoaderError string

text \<open>
  A call that returns \<open>(value, error)\<close> either returns, or the goroutine panics (a nil
  pointer dereference here). Both are outcomes of the model.
\<close>

datatype 'a outcome = Ok 'a | Err error | Panic

section \<open>fmt.Sprintf with the verb \<open>%d\<close>\<close>

definition decimalDigits :: string where
  "decimalDigits = ''0123456789''"

fun formatUint :: "nat \<Rightarrow> string" where
  "formatUint n =
     (if n < 10 then [decimalDigits ! n]
      else formatUint (n div 10) @ [decimalDigits ! (n mod 10)])"

definition formatInt :: "int \<Rightarrow> string" where
  "formatInt i = (if i < 0 then CHR ''-'' # formatUint (nat (- i)) else formatUint (nat i))"

text \<open>\<open>fmt.Sprintf("%d", x)\<close> for an \<open>int\<close>: the signed value in decimal.\<close>

definition fmt_d :: "go_int \<Rightarrow> string" where
  "fmt_d x = formatInt (sint x)"

section \<open>encoding/base64, URLEncoding\<close>

definition encodeURL :: string where
  "encodeURL = ''ABCDEFGHIJKLMNOPQRSTUVWXYZabcdefghijklmnopqrstuvwxyz0123456789-_''"

definition padChar :: char where
  "padChar = CHR ''=''"

definition encodeSextet :: "nat \<Rightarrow> char" where
  "encodeSextet n = encodeURL ! n"

text \<open>
  \<open>URLEncoding.EncodeToString\<close>: three bytes give four characters; a remainder of one or
  two bytes is padded with \<open>=\<close>.
\<close>

fun EncodeToString :: "string \<Rightarrow> string" where
  "EncodeToString [] = []"
| "EncodeToString [a] =
     (let x = (of_char a :: nat) in
      [encodeSextet (x div 4), encodeSextet ((x mod 4) * 16), padChar, padChar])"
| "EncodeToString [a, b] =
     (let x = (of_char a :: nat); y = (of_char b :: nat) in
      [encodeSextet (x div 4), encodeSextet ((x mod 4) * 16 + y div 16),
       encodeSextet ((y mod 16) * 4), padChar])"
| "EncodeToString (a # b # c # rest) =
     (let x = (of_char a :: nat); y = (of_char b :: nat); z = (of_char c :: nat) in
      [encodeSextet (x div 4), encodeSextet ((x mod 4) * 16 + y div 16),
       encodeSextet ((y mod 16) * 4 + z div 64), encodeSextet (z mod 64)])
     @ EncodeToString rest"

text \<open>The decode map of the encoding: the position of a character in the alphabet.\<close>

fun indexOf :: "char \<Rightarrow> string \<Rightarrow> nat \<Rightarrow> nat option" where
  "indexOf c [] i = None"
| "indexOf c (x # xs) i = (if c = x then Some i else indexOf c xs (Suc i))"

definition decodeMap :: "char \<Rightarrow> nat option" where
  "decodeMap c = indexOf c encodeURL 0"

definition byte :: "nat \<Rightarrow> char" where
  "byte n = char_of n"

text \<open>
  \<open>decodeQuantum\<close>, repeated over the input once the line breaks are dropped. The first two
  characters of a quantum are of the alphabet; padding ends the input; the encoding is not
  strict, so the unused low bits of a padded quantum are not looked at. \<open>None\<close> is
  \<open>CorruptInputError\<close>.
\<close>

fun decodeQuanta :: "string \<Rightarrow> string option" where
  "decodeQuanta [] = Some []"
| "decodeQuanta (c0 # c1 # c2 # c3 # rest) =
     (case (decodeMap c0, decodeMap c1) of
        (Some v0, Some v1) \<Rightarrow>
          (if c2 = padChar then
             (if c3 = padChar \<and> rest = [] then Some [byte (v0 * 4 + v1 div 16)] else None)
           else
             (case decodeMap c2 of
                None \<Rightarrow> None
              | Some v2 \<Rightarrow>
                  (if c3 = padChar then
                     (if rest = []
                      then Some [byte (v0 * 4 + v1 div 16), byte ((v1 mod 16) * 16 + v2 div 4)]
                      else None)
                   else
                     (case decodeMap c3 of
                        None \<Rightarrow> None
                      | Some v3 \<Rightarrow>
                          (case decodeQuanta rest of
                             None \<Rightarrow> None
                           | Some bs \<Rightarrow>
                               Some (byte (v0 * 4 + v1 div 16)
                                     # byte ((v1 mod 16) * 16 + v2 div 4)
                                     # byte ((v2 mod 4) * 64 + v3) # bs))))))
      | _ \<Rightarrow> None)"
| "decodeQuanta _ = None"

text \<open>\<open>URLEncoding.DecodeString\<close>: carriage returns and line feeds are skipped everywhere.\<close>

definition DecodeString :: "string \<Rightarrow> string option" where
  "DecodeString s = decodeQuanta (filter (\<lambda>c. c \<noteq> CHR 0x0A \<and> c \<noteq> CHR 0x0D) s)"

section \<open>regexp, for the patterns of the schema literals\<close>

text \<open>
  The patterns of the file use literals, character classes, concatenation, alternation,
  repetition and the anchors \<open>^\<close> and \<open>$\<close> at the two ends. A pattern is kept as its
  syntax tree, with the anchors as two flags. All characters of the patterns are ASCII, so
  matching on bytes is matching on runes.
\<close>

datatype regexp =
    NoMatch
  | EmptyMatch
  | CharClass "char list"
  | AnyChar
  | Concat regexp regexp
  | Alternate regexp regexp
  | Star regexp

datatype Regexp = Regexp (beginText: bool) (body: regexp) (endText: bool)

fun nullable :: "regexp \<Rightarrow> bool" where
  "nullable NoMatch = False"
| "nullable EmptyMatch = True"
| "nullable (CharClass cs) = False"
| "nullable AnyChar = False"
| "nullable (Concat r s) = (nullable r \<and> nullable s)"
| "nullable (Alternate r s) = (nullable r \<or> nullable s)"
| "nullable (Star r) = True"

fun deriv :: "char \<Rightarrow> regexp \<Rightarrow> regexp" where
  "deriv c NoMatch = NoMatch"
| "deriv c EmptyMatch = NoMatch"
| "deriv c (CharClass cs) = (if c \<in> set cs then EmptyMatch else NoMatch)"
| "deriv c AnyChar = EmptyMatch"
| "deriv c (Concat r s) =
     (if nullable r then Alternate (Concat (deriv c r) s) (deriv c s)
      else Concat (deriv c r) s)"
| "deriv c (Alternate r s) = Alternate (deriv c r) (deriv c s)"
| "deriv c (Star r) = Concat (deriv c r) (Star r)"

fun matches :: "regexp \<Rightarrow> string \<Rightarrow> bool" where
  "matches r [] = nullable r"
| "matches r (c # cs) = matches (deriv c r) cs"

text \<open>
  \<open>MatchString\<close> reports whether the text contains a match: without \<open>^\<close> the match may
  start anywhere, without \<open>$\<close> it may end anywhere.
\<close>

definition MatchString :: "Regexp \<Rightarrow> string \<Rightarrow> bool" where
  "MatchString re s =
     matches (Concat (if beginText re then EmptyMatch else Star AnyChar)
                (Concat (body re) (if endText re then EmptyMatch else Star AnyChar))) s"

fun literal :: "string \<Rightarrow> regexp" where
  "literal [] = EmptyMatch"
| "literal (c # cs) = Concat (CharClass [c]) (literal cs)"

fun repeat :: "nat \<Rightarrow> regexp \<Rightarrow> regexp" where
  "repeat 0 r = EmptyMatch"
| "repeat (Suc n) r = Concat r (repeat n r)"

definition plus :: "regexp \<Rightarrow> regexp" where
  "plus r = Concat r (Star r)"

definition quest :: "regexp \<Rightarrow> regexp" where
  "quest r = Alternate r EmptyMatch"

text \<open>The classes \<open>[0-9a-fA-F]\<close> and \<open>\d\<close>.\<close>

definition hexDigits :: string where
  "hexDigits = ''0123456789abcdefABCDEF''"

definition hexClass :: regexp where
  "hexClass = CharClass hexDigits"

definition digitClass :: regexp where
  "digitClass = CharClass decimalDigits"

section \<open>JSON documents and the JSON-Schema engine (gojsonschema)\<close>

text \<open>
  A decoded JSON document. The engine decodes numbers with full precision and asks only
  whether a number is an integer; an object is a map from names to values, kept as an
  association list that is read with \<^const>\<open>map_of\<close>.
\<close>

datatype json =
    JNull
  | JBool bool
  | JNumber rat
  | JString string
  | JArray "json list"
  | JObject "(string \<times> json) list"

datatype jsonType =
  TYPE_ARRAY | TYPE_BOOLEAN | TYPE_INTEGER | TYPE_NUMBER | TYPE_NULL | TYPE_OBJECT | TYPE_STRING

text \<open>
  A parsed schema, with one field for each keyword that the schema literals of the file
  use: \<open>$ref\<close>, \<open>type\<close>, \<open>pattern\<close>, \<open>anyOf\<close>, \<open>oneOf\<close>, \<open>allOf\<close>, \<open>required\<close> and
  \<open>properties\<close>. A keyword that is absent is \<open>None\<close> or the empty list. The \<open>id\<close> of a
  schema is the name under which the loader keeps it.
\<close>

datatype subSchema =
  SubSchema (ref: "string option") (types: "jsonType list") (pattern: "Regexp option")
    (anyOf: "subSchema list") (oneOf: "subSchema list") (allOf: "subSchema list")
    (required: "string list") (propertiesChildren: "property list")
and property = Property (propertyName: string) (propertySchema: subSchema)

text \<open>The schema \<open>{}\<close>, a schema with one keyword, and \<open>{"type":"string","pattern":p}\<close>.\<close>

definition emptySchema :: subSchema where
  "emptySchema = SubSchema None [] None [] [] [] [] []"

definition refSchema :: "string \<Rightarrow> subSchema" where
  "refSchema name = SubSchema (Some name) [] None [] [] [] [] []"

definition typeSchema :: "jsonType \<Rightarrow> subSchema" where
  "typeSchema t = SubSchema None [t] None [] [] [] [] []"

definition stringPatternSchema :: "Regexp \<Rightarrow> subSchema" where
  "stringPatternSchema p = SubSchema None [TYPE_STRING] (Some p) [] [] [] [] []"

text \<open>
  The errors of a validation result. Only the kind of an error is kept, and the property
  that a \<open>required\<close> error names.
\<close>

datatype ResultError =
    InvalidTypeError
  | RequiredError string
  | DoesNotMatchPatternError
  | NumberAnyOfError
  | NumberOneOfError
  | NumberAllOfError

type_synonym Result = "ResultError list"

definition Valid :: "Result \<Rightarrow> bool" where
  "Valid r = (r = [])"

definition isInt :: "rat \<Rightarrow> bool" where
  "isInt q = (snd (quotient_of q) = 1)"

fun validType :: "jsonType list \<Rightarrow> json \<Rightarrow> bool" where
  "validType ts JNull = (TYPE_NULL \<in> set ts)"
| "validType ts (JBool b) = (TYPE_BOOLEAN \<in> set ts)"
| "validType ts (JNumber q) = (TYPE_NUMBER \<in> set ts \<or> (isInt q \<and> TYPE_INTEGER \<in> set ts))"
| "validType ts (JString s) = (TYPE_STRING \<in> set ts)"
| "validType ts (JArray xs) = (TYPE_ARRAY \<in> set ts)"
| "validType ts (JObject m) = (TYPE_OBJECT \<in> set ts)"

text \<open>\<open>validateObject\<close>: one error for each required property that the object lacks.\<close>

fun validateObject :: "string list \<Rightarrow> json \<Rightarrow> Result" where
  "validateObject req (JObject m) =
     map RequiredError (filter (\<lambda>k. map_of m k = None) req)"
| "validateObject req _ = []"

text \<open>\<open>validateString\<close>: the pattern is looked at for strings only.\<close>

fun validateString :: "Regexp option \<Rightarrow> json \<Rightarrow> Result" where
  "validateString (Some p) (JString s) =
     (if MatchString p s then [] else [DoesNotMatchPatternError])"
| "validateString _ _ = []"

text \<open>
  The three combinators of \<open>validateSchema\<close>, from the results of the alternatives.
  \<open>allOf\<close> merges the errors of every alternative into the result and adds its own error
  when one of them failed. A failed \<open>anyOf\<close> or \<open>oneOf\<close> adds its own error; the engine
  then also copies the errors of the closest alternative, which are diagnostics that
  never change whether the result is valid and are left out here.
\<close>

definition oneOfErrors :: "Result list \<Rightarrow> Result" where
  "oneOfErrors rs =
     (if rs = [] \<or> length (filter Valid rs) = 1 then [] else [NumberOneOfError])"

definition allOfErrors :: "Result list \<Rightarrow> Result" where
  "allOfErrors rs =
     concat rs @ (if length (filter Valid rs) \<noteq> length rs then [NumberAllOfError] else [])"


type_synonym pool = "(string \<times> subSchema) list"

text \<open>
  \<open>validateRecursive\<close>. A reference is followed first and nothing else of that schema is
  looked at; a value of the wrong type gives one error and ends the validation of this
  schema; then come the combinators, the keywords for the kind of the value, and the
  properties of an object that are present. Following a reference costs one unit of
  \<open>fuel\<close>: \<open>None\<close> is a validation that does not end within it (a cycle of references),
  or that meets a name the pool does not hold, which \<open>Compile\<close> excludes.
  \<open>anyOf\<close> stops at the first alternative that validates.
\<close>

function (sequential) validateRecursive :: "nat \<Rightarrow> pool \<Rightarrow> subSchema \<Rightarrow> json \<Rightarrow> Result option"
and validateAnyOf :: "nat \<Rightarrow> pool \<Rightarrow> subSchema list \<Rightarrow> json \<Rightarrow> bool option"
and subValidateEach :: "nat \<Rightarrow> pool \<Rightarrow> subSchema list \<Rightarrow> json \<Rightarrow> Result list option"
and validateChildren :: "nat \<Rightarrow> pool \<Rightarrow> property list \<Rightarrow> (string \<times> json) list \<Rightarrow> Result option"
where
  "validateRecursive fuel pl (SubSchema r ts p any one all req props) node =
     (case r of
        Some name \<Rightarrow>
          (case fuel of
             0 \<Rightarrow> None
           | Suc k \<Rightarrow>
               (case map_of pl name of
                  None \<Rightarrow> None
                | Some s \<Rightarrow> validateRecursive k pl s node))
      | None \<Rightarrow>
          (if ts \<noteq> [] \<and> \<not> validType ts node then Some [InvalidTypeError]
           else
             (case validateAnyOf fuel pl any node of
                None \<Rightarrow> None
              | Some okAny \<Rightarrow>
             (case subValidateEach fuel pl one node of
                None \<Rightarrow> None
              | Some rsOne \<Rightarrow>
             (case subValidateEach fuel pl all node of
                None \<Rightarrow> None
              | Some rsAll \<Rightarrow>
             (case (case node of JObject m \<Rightarrow> validateChildren fuel pl props m | _ \<Rightarrow> Some []) of
                None \<Rightarrow> None
              | Some rsChildren \<Rightarrow>
                  Some ((if any = [] \<or> okAny then [] else [NumberAnyOfError])
                        @ oneOfErrors rsOne
                        @ allOfErrors rsAll
                        @ validateObject req node
                        @ validateString p node
                        @ rsChildren)))))))"
| "validateAnyOf fuel pl [] node = Some False"
| "validateAnyOf fuel pl (s # ss) node =
     (case validateRecursive fuel pl s node of
        None \<Rightarrow> None
      | Some r \<Rightarrow> (if Valid r then Some True else validateAnyOf fuel pl ss node))"
| "subValidateEach fuel pl [] node = Some []"
| "subValidateEach fuel pl (s # ss) node =
     (case validateRecursive fuel pl s node of
        None \<Rightarrow> None
      | Some r \<Rightarrow>
          (case subValidateEach fuel pl ss node of
             None \<Rightarrow> None
           | Some rs \<Rightarrow> Some (r # rs)))"
| "validateChildren fuel pl [] m = Some []"
| "validateChildren fuel pl (Property k s # ps) m =
     (case map_of m k of
        None \<Rightarrow> validateChildren fuel pl ps m
      | Some v \<Rightarrow>
          (case validateRecursive fuel pl s v of
             None \<Rightarrow> None
           | Some r \<Rightarrow>
               (case validateChildren fuel pl ps m of
                  None \<Rightarrow> None
                | Some rs \<Rightarrow> Some (r @ rs))))"
  by pat_completeness auto
termination
  by (relation "inv_image (less_than <*lex*> less_than)
        (\<lambda>x. case x of
           Inl (Inl (f, _, s, _)) \<Rightarrow> (f, size s)
         | Inl (Inr (f, _, ss, _)) \<Rightarrow> (f, size_list size ss)
         | Inr (Inl (f, _, ss, _)) \<Rightarrow> (f, size_list size ss)
         | Inr (Inr (f, _, ps, _)) \<Rightarrow> (f, size_list size ps))") auto

text \<open>
  \<open>Compile\<close> resolves every reference that can be reached from the root schema and fails
  on a name the pool does not hold. A chain of references that is longer than the pool
  repeats a name, so the search goes no deeper than \<open>depth\<close>, the length of the pool.
\<close>

function (sequential) resolves :: "nat \<Rightarrow> pool \<Rightarrow> subSchema \<Rightarrow> bool"
and resolvesEach :: "nat \<Rightarrow> pool \<Rightarrow> subSchema list \<Rightarrow> bool"
and resolvesChildren :: "nat \<Rightarrow> pool \<Rightarrow> property list \<Rightarrow> bool"
where
  "resolves depth pl (SubSchema r ts p any one all req props) =
     (case r of
        Some name \<Rightarrow>
          (case map_of pl name of
             None \<Rightarrow> False
           | Some s \<Rightarrow> (case depth of 0 \<Rightarrow> True | Suc k \<Rightarrow> resolves k pl s))
      | None \<Rightarrow>
          resolvesEach depth pl any \<and> resolvesEach depth pl one
          \<and> resolvesEach depth pl all \<and> resolvesChildren depth pl props)"
| "resolvesEach depth pl [] = True"
| "resolvesEach depth pl (s # ss) = (resolves depth pl s \<and> resolvesEach depth pl ss)"
| "resolvesChildren depth pl [] = True"
| "resolvesChildren depth pl (Property k s # ps) =
     (resolves depth pl s \<and> resolvesChildren depth pl ps)"
  by pat_completeness auto
termination
  by (relation "inv_image (less_than <*lex*> less_than)
        (\<lambda>x. case x of
           Inl (f, _, s) \<Rightarrow> (f, size s)
         | Inr (Inl (f, _, ss)) \<Rightarrow> (f, size_list size ss)
         | Inr (Inr (f, _, ps)) \<Rightarrow> (f, size_list size ps))") auto

section \<open>What stays external\<close>

text \<open>
  \<^item> \<open>GetContractAddressesForChainID\<close> of the package ethereum, followed by
    \<open>.Exchange.Hex()\<close>: the error text, or the checksummed hexadecimal form of the
    exchange address of the chain (\<open>0x\<close> and 40 hexadecimal digits).
  \<^item> \<open>canonicaljson.Unmarshal\<close> into an empty interface and \<open>canonicaljson.Marshal\<close>,
    over the decoded values \<open>'v\<close> of that package.
  \<^item> The reader of gojsonschema for the text of a schema and for the text of a document.
\<close>

record 'v collaborators =
  GetContractAddressesForChainID :: "go_int \<Rightarrow> string + string"
  canonicaljson_Unmarshal :: "string \<Rightarrow> string + 'v"
  canonicaljson_Marshal :: "'v \<Rightarrow> string + string"
  schemaLoadJSON :: "string \<Rightarrow> string + subSchema"
  documentLoadJSON :: "string \<Rightarrow> string + json"

section \<open>strings.ToLower\<close>

text \<open>On ASCII text, which the hexadecimal form of an address is: the letters A to Z.\<close>

definition toLowerByte :: "char \<Rightarrow> char" where
  "toLowerByte c =
     (case indexOf c ''ABCDEFGHIJKLMNOPQRSTUVWXYZ'' 0 of
        None \<Rightarrow> c
      | Some i \<Rightarrow> ''abcdefghijklmnopqrstuvwxyz'' ! i)"

definition ToLower :: "string \<Rightarrow> string" where
  "ToLower s = map toLowerByte s"

section \<open>Schema loaders\<close>

text \<open>
  A \<open>JSONLoader\<close> made by \<open>NewStringLoader\<close>. For a string literal of the file, and for
  the text that \<open>loadExchangeAddress\<close> formats, the loader is given by what the engine
  reads from it: the \<open>id\<close> and the keywords. For a text that comes from the caller, the
  loader holds the text and the engine's reader decides.
\<close>

datatype JSONLoader =
    ParsedLoader (loaderId: string) (loaderSchema: subSchema)
  | StringLoader string

fun LoadJSON :: "'v collaborators \<Rightarrow> JSONLoader \<Rightarrow> error + (string \<times> subSchema)" where
  "LoadJSON env (ParsedLoader i s) = Inr (i, s)"
| "LoadJSON env (StringLoader text) =
     (case schemaLoadJSON env text of
        Inl e \<Rightarrow> Inl (SchemaLoaderError e)
      | Inr s \<Rightarrow> Inr ([], s))"

text \<open>A \<open>SchemaLoader\<close> is its pool of named schemas.\<close>

definition NewSchemaLoader :: pool where
  "NewSchemaLoader = []"

definition AddSchema :: "'v collaborators \<Rightarrow> pool \<Rightarrow> string \<Rightarrow> JSONLoader \<Rightarrow> error + pool" where
  "AddSchema env pl url loader =
     (case LoadJSON env loader of
        Inl e \<Rightarrow> Inl e
      | Inr (i, s) \<Rightarrow> Inr (pl @ [(url, s)]))"

fun AddSchemas :: "'v collaborators \<Rightarrow> pool \<Rightarrow> JSONLoader list \<Rightarrow> error + pool" where
  "AddSchemas env pl [] = Inr pl"
| "AddSchemas env pl (loader # loaders) =
     (case LoadJSON env loader of
        Inl e \<Rightarrow> Inl e
      | Inr (i, s) \<Rightarrow> AddSchemas env (if i = [] then pl else pl @ [(i, s)]) loaders)"

record Schema =
  schemaPool :: pool
  rootSchema :: subSchema

definition Compile :: "'v collaborators \<Rightarrow> pool \<Rightarrow> JSONLoader \<Rightarrow> error + Schema" where
  "Compile env pl rootLoader =
     (case LoadJSON env rootLoader of
        Inl e \<Rightarrow> Inl e
      | Inr (i, s) \<Rightarrow>
          (if resolves (length pl) pl s
           then Inr \<lparr>schemaPool = pl, rootSchema = s\<rparr>
           else Inl (SchemaLoaderError ''could not resolve reference'')))"

text \<open>
  \<open>Schema.Validate\<close> on a bytes loader: the document is read, then validated against the
  root schema. The outer \<open>None\<close> is a validation that does not end within the fuel.
\<close>

definition Validate :: "'v collaborators \<Rightarrow> nat \<Rightarrow> Schema \<Rightarrow> string \<Rightarrow> (error + Result) option" where
  "Validate env fuel sch document =
     (case documentLoadJSON env document of
        Inl e \<Rightarrow> Some (Inl (DocumentLoaderError e))
      | Inr node \<Rightarrow>
          (case validateRecursive fuel (schemaPool sch) (rootSchema sch) node of
             None \<Rightarrow> None
           | Some r \<Rightarrow> Some (Inr r)))"

section \<open>filter.go: constants and schema literals\<close>

definition pubsubTopicVersion :: go_int where
  "pubsubTopicVersion = 3"

text \<open>\<open>fmt.Sprintf(fullTopicFormat, version, chainID, schema)\<close>.\<close>

definition fullTopicFormat :: "go_int \<Rightarrow> go_int \<Rightarrow> string \<Rightarrow> string" where
  "fullTopicFormat v c s =
     ''/0x-orders/version/'' @ fmt_d v @ ''/chain/'' @ fmt_d c @ ''/schema/'' @ s"

text \<open>\<open>^0x[0-9a-fA-F]{40}$\<close>\<close>

definition addressSchemaLoader :: JSONLoader where
  "addressSchemaLoader =
     ParsedLoader ''/address''
       (stringPatternSchema (Regexp True (Concat (literal ''0x'') (repeat 40 hexClass)) True))"

text \<open>\<open>^\d+$\<close>, or an integer\<close>

definition wholeNumberSchemaLoader :: JSONLoader where
  "wholeNumberSchemaLoader =
     ParsedLoader ''/wholeNumber''
       (SubSchema None [] None
          [stringPatternSchema (Regexp True (plus digitClass) True), typeSchema TYPE_INTEGER]
          [] [] [] [])"

text \<open>\<open>^0x(([0-9a-fA-F][0-9a-fA-F])+)?$\<close>\<close>

definition hexSchemaLoader :: JSONLoader where
  "hexSchemaLoader =
     ParsedLoader ''/hex''
       (stringPatternSchema
          (Regexp True (Concat (literal ''0x'') (quest (plus (Concat hexClass hexClass)))) True))"

definition orderRequired :: "string list" where
  "orderRequired =
     [''makerAddress'', ''takerAddress'', ''makerFee'', ''takerFee'', ''senderAddress'',
      ''makerAssetAmount'', ''takerAssetAmount'', ''makerAssetData'', ''takerAssetData'',
      ''salt'', ''exchangeAddress'', ''feeRecipientAddress'', ''expirationTimeSeconds'']"

definition orderProperties :: "property list" where
  "orderProperties =
     [Property ''makerAddress'' (refSchema ''/address''),
      Property ''takerAddress'' (refSchema ''/address''),
      Property ''makerFee'' (refSchema ''/wholeNumber''),
      Property ''takerFee'' (refSchema ''/wholeNumber''),
      Property ''senderAddress'' (refSchema ''/address''),
      Property ''makerAssetAmount'' (refSchema ''/wholeNumber''),
      Property ''takerAssetAmount'' (refSchema ''/wholeNumber''),
      Property ''makerAssetData'' (refSchema ''/hex''),
      Property ''takerAssetData'' (refSchema ''/hex''),
      Property ''salt'' (refSchema ''/wholeNumber''),
      Property ''exchangeAddress'' (refSchema ''/exchangeAddress''),
      Property ''feeRecipientAddress'' (refSchema ''/address''),
      Property ''expirationTimeSeconds'' (refSchema ''/wholeNumber'')]"

definition orderSchemaLoader :: JSONLoader where
  "orderSchemaLoader =
     ParsedLoader ''/order''
       (SubSchema None [TYPE_OBJECT] None [] [] [] orderRequired orderProperties)"

definition signedOrderSchemaLoader :: JSONLoader where
  "signedOrderSchemaLoader =
     ParsedLoader ''/signedOrder''
       (SubSchema None [] None [] []
          [refSchema ''/order'',
           SubSchema None [] None [] [] [] [''signature'']
             [Property ''signature'' (refSchema ''/hex'')]]
          [] [])"

definition rootOrderSchemaLoader :: JSONLoader where
  "rootOrderSchemaLoader =
     ParsedLoader ''/rootOrder''
       (SubSchema None [] None [] []
          [refSchema ''/customOrder'', refSchema ''/signedOrder''] [] [])"

definition rootMessageSchemaLoader :: JSONLoader where
  "rootMessageSchemaLoader =
     ParsedLoader ''/rootMessage''
       (SubSchema None [] None [] [] [] [''MessageType'', ''Order'']
          [Property ''MessageType'' (typeSchema TYPE_STRING),
           Property ''Order'' (refSchema ''/rootOrder'')])"

definition DefaultCustomOrderSchema :: string where
  "DefaultCustomOrderSchema = ''{}''"

definition builtInSchemas :: "JSONLoader list" where
  "builtInSchemas =
     [addressSchemaLoader, wholeNumberSchemaLoader, hexSchemaLoader, orderSchemaLoader,
      signedOrderSchemaLoader]"

section \<open>filter.go: Filter and New\<close>

text \<open>
  The two schema fields are pointers that \<open>New\<close> always sets; the record holds what they
  point to. \<open>New\<close> leaves \<open>topic\<close> empty and \<open>version\<close> zero.
\<close>

record Filter =
  topic :: string
  version :: go_int
  chainID :: go_int
  rawCustomOrderSchema :: string
  orderSchema :: Schema
  messageSchema :: Schema

text \<open>
  The text that \<open>loadExchangeAddress\<close> formats, as the engine reads it: \<open>oneOf\<close> two string
  schemas whose patterns are the two forms of the address. The forms consist of digits
  and letters, so the verb \<open>%q\<close> only adds the quotes, and each pattern denotes its own
  text, without anchors.
\<close>

definition exchangeAddressSchema :: "string \<Rightarrow> string \<Rightarrow> subSchema" where
  "exchangeAddressSchema checksummed lowered =
     SubSchema None [] None []
       [stringPatternSchema (Regexp False (literal checksummed) False),
        stringPatternSchema (Regexp False (literal lowered) False)]
       [] [] []"

definition loadExchangeAddress :: "'v collaborators \<Rightarrow> pool \<Rightarrow> go_int \<Rightarrow> error + pool" where
  "loadExchangeAddress env loader cid =
     (case GetContractAddressesForChainID env cid of
        Inl e \<Rightarrow> Inl (ContractAddressesError e)
      | Inr hex \<Rightarrow>
          AddSchema env loader ''/exchangeAddress''
            (ParsedLoader [] (exchangeAddressSchema hex (ToLower hex))))"

text \<open>
  \<open>newLoader\<close> returns a pointer and an error, of which one is nil. The pair is kept, since
  \<open>New\<close> does not look at the error.
\<close>

definition newLoader :: "'v collaborators \<Rightarrow> go_int \<Rightarrow> string \<Rightarrow> pool option \<times> error option" where
  "newLoader env cid customOrderSchema =
     (case loadExchangeAddress env NewSchemaLoader cid of
        Inl e \<Rightarrow> (None, Some e)
      | Inr loader1 \<Rightarrow>
          (case AddSchemas env loader1 builtInSchemas of
             Inl e \<Rightarrow> (None, Some e)
           | Inr loader2 \<Rightarrow>
               (case AddSchema env loader2 ''/customOrder'' (StringLoader customOrderSchema) of
                  Inl e \<Rightarrow> (None, Some e)
                | Inr loader3 \<Rightarrow> (Some loader3, None))))"

text \<open>
  \<open>New\<close> overwrites the error of \<open>newLoader\<close> with that of the next call without looking
  at it, at both places. \<open>Compile\<close> and \<open>AddSchemas\<close> read the pool of their receiver, so
  on a nil loader the call is a nil pointer dereference.
\<close>

definition New :: "'v collaborators \<Rightarrow> go_int \<Rightarrow> string \<Rightarrow> Filter outcome" where
  "New env cid customOrderSchema =
     (case newLoader env cid customOrderSchema of
        (None, _) \<Rightarrow> Panic
      | (Some orderLoader, _) \<Rightarrow>
          (case Compile env orderLoader rootOrderSchemaLoader of
             Inl e \<Rightarrow> Err e
           | Inr rootOrderSchema \<Rightarrow>
               (case newLoader env cid customOrderSchema of
                  (None, _) \<Rightarrow> Panic
                | (Some messageLoader, _) \<Rightarrow>
                    (case AddSchemas env messageLoader [rootOrderSchemaLoader] of
                       Inl e \<Rightarrow> Err e
                     | Inr messageLoader' \<Rightarrow>
                         (case Compile env messageLoader' rootMessageSchemaLoader of
                            Inl e \<Rightarrow> Err e
                          | Inr rootMessageSchema \<Rightarrow>
                              Ok \<lparr>topic = [], version = 0, chainID = cid,
                                  rawCustomOrderSchema = customOrderSchema,
                                  orderSchema = rootOrderSchema,
                                  messageSchema = rootMessageSchema\<rparr>)))))"

text \<open>
  The pool that \<open>newLoader\<close> builds when the chain has an exchange address and the custom
  schema text reads as \<open>custom\<close>.
\<close>

definition loaderPool :: "string \<Rightarrow> subSchema \<Rightarrow> pool" where
  "loaderPool hex custom =
     (''/exchangeAddress'', exchangeAddressSchema hex (ToLower hex))
     # map (\<lambda>l. (loaderId l, loaderSchema l)) builtInSchemas
     @ [(''/customOrder'', custom)]"

section \<open>filter.go: Topic and generateTopic\<close>

text \<open>
  The holder starts as the empty struct. \<open>Unmarshal\<close> replaces it by the decoded value
  when it succeeds and leaves it alone when it fails; both errors are dropped. The empty
  struct marshals to \<open>{}\<close>; a failed \<open>Marshal\<close> gives no bytes.
\<close>

datatype 'v holder = EmptyStruct | Decoded 'v

definition unmarshalInto :: "'v collaborators \<Rightarrow> string \<Rightarrow> 'v holder \<Rightarrow> 'v holder" where
  "unmarshalInto env text h =
     (case canonicaljson_Unmarshal env text of Inl e \<Rightarrow> h | Inr v \<Rightarrow> Decoded v)"

definition marshalHolder :: "'v collaborators \<Rightarrow> 'v holder \<Rightarrow> string" where
  "marshalHolder env h =
     (case h of
        EmptyStruct \<Rightarrow> ''{}''
      | Decoded v \<Rightarrow> (case canonicaljson_Marshal env v of Inl e \<Rightarrow> [] | Inr bs \<Rightarrow> bs))"

definition generateTopic :: "'v collaborators \<Rightarrow> Filter \<Rightarrow> string" where
  "generateTopic env v =
     (let holder = unmarshalInto env (rawCustomOrderSchema v) EmptyStruct;
          canonicalOrderSchemaJSON = marshalHolder env holder;
          base64EncodedSchema = EncodeToString canonicalOrderSchemaJSON
      in fullTopicFormat pubsubTopicVersion (chainID v) base64EncodedSchema)"

text \<open>\<open>Topic\<close> returns the string and the filter as the call leaves it.\<close>

definition Topic :: "'v collaborators \<Rightarrow> Filter \<Rightarrow> string \<times> Filter" where
  "Topic env f =
     (let f' = (if topic f = [] then f\<lparr>topic := generateTopic env f\<rparr> else f)
      in (topic f', f'))"

text \<open>The filter after \<open>n\<close> calls of \<open>Topic\<close>.\<close>

fun afterTopicCalls :: "'v collaborators \<Rightarrow> nat \<Rightarrow> Filter \<Rightarrow> Filter" where
  "afterTopicCalls env 0 f = f"
| "afterTopicCalls env (Suc n) f = afterTopicCalls env n (snd (Topic env f))"

section \<open>filter.go: validation\<close>

definition MatchMessageJSON :: "'v collaborators \<Rightarrow> nat \<Rightarrow> Filter \<Rightarrow> string \<Rightarrow> (error + bool) option" where
  "MatchMessageJSON env fuel f messageJSON =
     (case Validate env fuel (messageSchema f) messageJSON of
        None \<Rightarrow> None
      | Some (Inl e) \<Rightarrow> Some (Inl e)
      | Some (Inr r) \<Rightarrow> Some (Inr (Valid r)))"

definition ValidateOrderJSON :: "'v collaborators \<Rightarrow> nat \<Rightarrow> Filter \<Rightarrow> string \<Rightarrow> (error + Result) option" where
  "ValidateOrderJSON env fuel f orderJSON = Validate env fuel (orderSchema f) orderJSON"

section \<open>fmt.Sscanf with the verbs \<open>%d\<close> and \<open>%s\<close>\<close>

text \<open>
  The scanner reads its input rune by rune. \<open>utf8.DecodeRune\<close> gives the rune at the head
  of a byte sequence and its width; a byte that starts no valid encoding is the rune
  \<open>RuneError\<close> of width 1.
\<close>

type_synonym rune = nat

definition RuneError :: rune where
  "RuneError = 0xFFFD"

definition DecodeRune :: "string \<Rightarrow> rune \<times> nat" where
  "DecodeRune p =
     (case map of_char p of
        [] \<Rightarrow> (RuneError, 0)
      | p0 # bs \<Rightarrow>
          (if p0 < 0x80 then (p0, 1)
           else if p0 < 0xC2 \<or> 0xF4 < p0 then (RuneError, 1)
           else
             (let sz = (if p0 < 0xE0 then 2 else if p0 < 0xF0 then 3 else 4 :: nat);
                  lo = (if p0 = 0xE0 then 0xA0 else if p0 = 0xF0 then 0x90 else 0x80 :: nat);
                  hi = (if p0 = 0xED then 0x9F else if p0 = 0xF4 then 0x8F else 0xBF :: nat)
              in if length bs + 1 < sz then (RuneError, 1)
                 else
                   (case bs of
                      [] \<Rightarrow> (RuneError, 1)
                    | b1 # bs1 \<Rightarrow>
                        (if b1 < lo \<or> hi < b1 then (RuneError, 1)
                         else if sz = 2 then ((p0 mod 32) * 64 + b1 mod 64, 2)
                         else
                           (case bs1 of
                              [] \<Rightarrow> (RuneError, 1)
                            | b2 # bs2 \<Rightarrow>
                                (if b2 < 0x80 \<or> 0xBF < b2 then (RuneError, 1)
                                 else if sz = 3 then
                                   ((p0 mod 16) * 4096 + (b1 mod 64) * 64 + b2 mod 64, 3)
                                 else
                                   (case bs2 of
                                      [] \<Rightarrow> (RuneError, 1)
                                    | b3 # bs3 \<Rightarrow>
                                        (if b3 < 0x80 \<or> 0xBF < b3 then (RuneError, 1)
                                         else
                                           ((p0 mod 8) * 262144 + (b1 mod 64) * 4096
                                            + (b2 mod 64) * 64 + b3 mod 64, 4))))))))))"

text \<open>
  The input as the scanner sees it: each rune with the bytes that the scanner's buffer
  gets when the rune is kept (the bytes read, or the encoding of \<open>RuneError\<close> for an
  invalid byte). \<open>skip\<close> counts the bytes that belong to the rune before.
\<close>

type_synonym input = "(rune \<times> string) list"

definition encodedRuneError :: string where
  "encodedRuneError = [CHR 0xEF, CHR 0xBF, CHR 0xBD]"

fun readRunes :: "nat \<Rightarrow> string \<Rightarrow> input" where
  "readRunes skip [] = []"
| "readRunes skip (c # cs) =
     (if 0 < skip then readRunes (skip - 1) cs
      else
        (case DecodeRune (c # cs) of
           (r, width) \<Rightarrow>
             (r, if r = RuneError \<and> width = 1 then encodedRuneError else take width (c # cs))
             # readRunes (width - 1) cs))"

definition isSpace :: "rune \<Rightarrow> bool" where
  "isSpace r =
     ((0x09 \<le> r \<and> r \<le> 0x0D) \<or> r = 0x20 \<or> r = 0x85 \<or> r = 0xA0 \<or> r = 0x1680
      \<or> (0x2000 \<le> r \<and> r \<le> 0x200A) \<or> r = 0x2028 \<or> r = 0x2029 \<or> r = 0x202F
      \<or> r = 0x205F \<or> r = 0x3000)"

text \<open>
  \<open>SkipSpace\<close> of a scan whose newlines are not spaces (\<open>Sscanf\<close>): a line feed is an error.
  \<open>None\<close> is a scan that ends with an error.
\<close>

fun SkipSpace :: "input \<Rightarrow> input option" where
  "SkipSpace [] = Some []"
| "SkipSpace ((r, b) # rest) =
     (if r = 0x0D \<and> (case rest of [] \<Rightarrow> False | (r2, b2) # rest2 \<Rightarrow> r2 = 0x0A)
      then SkipSpace rest
      else if r = 0x0A then None
      else if \<not> isSpace r then Some ((r, b) # rest)
      else SkipSpace rest)"

text \<open>
  \<open>advance\<close> over a stretch of the format that has no space, no newline and no percent
  sign: every character has to be the next rune of the input.
\<close>

fun advance :: "string \<Rightarrow> input \<Rightarrow> input option" where
  "advance [] inp = Some inp"
| "advance (c # cs) [] = None"
| "advance (c # cs) ((r, b) # rest) = (if r = of_char c then advance cs rest else None)"

text \<open>The digits that \<open>%d\<close> accepts are \<open>0123456789_\<close>; the signs are \<open>+\<close> and \<open>-\<close>.\<close>

definition isDigit :: "rune \<Rightarrow> bool" where
  "isDigit r = ((0x30 \<le> r \<and> r \<le> 0x39) \<or> r = 0x5F)"

fun acceptDigits :: "input \<Rightarrow> string \<times> input" where
  "acceptDigits [] = ([], [])"
| "acceptDigits ((r, b) # rest) =
     (if isDigit r
      then (case acceptDigits rest of (tok, rest') \<Rightarrow> (b @ tok, rest'))
      else ([], (r, b) # rest))"

text \<open>
  \<open>strconv.ParseInt(tok, 10, 64)\<close> on the sign and the digits of the token: an underscore
  is a syntax error in base 10, and a value outside 64 bits is a range error.
\<close>

fun parseDecimal :: "string \<Rightarrow> nat \<Rightarrow> nat option" where
  "parseDecimal [] acc = Some acc"
| "parseDecimal (c # cs) acc =
     (case indexOf c decimalDigits 0 of
        None \<Rightarrow> None
      | Some d \<Rightarrow> parseDecimal cs (acc * 10 + d))"

definition ParseInt :: "bool \<Rightarrow> string \<Rightarrow> go_int option" where
  "ParseInt neg digits =
     (case parseDecimal digits 0 of
        None \<Rightarrow> None
      | Some un \<Rightarrow>
          (if \<not> neg \<and> 2 ^ 63 \<le> un then None
           else if neg \<and> 2 ^ 63 < un then None
           else Some (word_of_int (if neg then - int un else int un))))"

text \<open>
  \<open>scanInt\<close> for \<open>%d\<close>: spaces are skipped, the input must not be at its end, one sign is
  accepted, and at least one digit is required.
\<close>

definition scanInt :: "input \<Rightarrow> (go_int \<times> input) option" where
  "scanInt inp =
     (case SkipSpace inp of
        None \<Rightarrow> None
      | Some [] \<Rightarrow> None
      | Some ((r, b) # rest) \<Rightarrow>
          (let neg = (r = 0x2D);
               afterSign = (if r = 0x2B \<or> r = 0x2D then rest else (r, b) # rest)
           in case acceptDigits afterSign of
                (tok, rest') \<Rightarrow>
                  (if tok = [] then None
                   else (case ParseInt neg tok of
                           None \<Rightarrow> None
                         | Some v \<Rightarrow> Some (v, rest')))))"

text \<open>
  \<open>convertString\<close> for \<open>%s\<close>: spaces are skipped, the input must not be at its end, and the
  token is the runes up to the next space.
\<close>

fun token :: "input \<Rightarrow> string" where
  "token [] = []"
| "token ((r, b) # rest) = (if isSpace r then [] else b @ token rest)"

definition convertString :: "input \<Rightarrow> string option" where
  "convertString inp =
     (case SkipSpace inp of
        None \<Rightarrow> None
      | Some [] \<Rightarrow> None
      | Some inp' \<Rightarrow> Some (token inp'))"

text \<open>
  \<open>fmt.Sscanf(topic, "/0x-orders/version/%d%s", &version, &chainIDAndSchema)\<close> and
  \<open>fmt.Sscanf(chainIDAndSchema, "/chain/%d/schema/%s", &chainID, &base64EncodedSchema)\<close>:
  \<open>None\<close> when the error is not nil. Input after the last verb is not looked at.
\<close>

definition Sscanf_topicVersionFormat :: "string \<Rightarrow> (go_int \<times> string) option" where
  "Sscanf_topicVersionFormat str =
     (case advance ''/0x-orders/version/'' (readRunes 0 str) of
        None \<Rightarrow> None
      | Some inp1 \<Rightarrow>
          (case scanInt inp1 of
             None \<Rightarrow> None
           | Some (v, inp2) \<Rightarrow>
               (case convertString inp2 of
                  None \<Rightarrow> None
                | Some s \<Rightarrow> Some (v, s))))"

definition Sscanf_topicChainIDAndSchemaFormat :: "string \<Rightarrow> (go_int \<times> string) option" where
  "Sscanf_topicChainIDAndSchemaFormat str =
     (case advance ''/chain/'' (readRunes 0 str) of
        None \<Rightarrow> None
      | Some inp1 \<Rightarrow>
          (case scanInt inp1 of
             None \<Rightarrow> None
           | Some (c, inp2) \<Rightarrow>
               (case advance ''/schema/'' inp2 of
                  None \<Rightarrow> None
                | Some inp3 \<Rightarrow>
                    (case convertString inp3 of
                       None \<Rightarrow> None
                     | Some s \<Rightarrow> Some (c, s)))))"

section \<open>filter.go: NewFromTopic\<close>

text \<open>
  The part of \<open>NewFromTopic\<close> before the call of \<open>New\<close>: the version, the chainID and the
  decoded schema text are read from the topic.
\<close>

definition parseTopic :: "string \<Rightarrow> error + (go_int \<times> string)" where
  "parseTopic tp =
     (case Sscanf_topicVersionFormat tp of
        None \<Rightarrow> Inl (CouldNotParseTopicVersion tp)
      | Some (ver, chainIDAndSchema) \<Rightarrow>
          (if ver \<noteq> pubsubTopicVersion
           then Inl (WrongTopicVersionError pubsubTopicVersion ver)
           else
             (case Sscanf_topicChainIDAndSchemaFormat chainIDAndSchema of
                None \<Rightarrow> Inl (CouldNotParseChainIDAndSchema tp)
              | Some (cid, base64EncodedSchema) \<Rightarrow>
                  (case DecodeString base64EncodedSchema of
                     None \<Rightarrow> Inl (CouldNotBase64Decode base64EncodedSchema)
                   | Some customOrderSchema \<Rightarrow> Inr (cid, customOrderSchema)))))"

definition NewFromTopic :: "'v collaborators \<Rightarrow> string \<Rightarrow> Filter outcome" where
  "NewFromTopic env tp =
     (case parseTopic tp of
        Inl e \<Rightarrow> Err e
      | Inr (cid, customOrderSchema) \<Rightarrow> New env cid customOrderSchema)"

section \<open>Collaborators for the examples\<close>

text \<open>
  The external parts on a handful of inputs, as they behave there: the two readers and
  canonical JSON on a few texts, and an address table with one chain.
\<close>

definition exampleUnmarshal :: "string \<Rightarrow> string + json" where
  \<open>exampleUnmarshal text =
     (if text = ''{}'' then Inr (JObject [])
      else if text = ''{"a":1,"b":2}'' \<or> text = ''{ "b": 2, "a": 1 }''
      then Inr (JObject [(''a'', JNumber 1), (''b'', JNumber 2)])
      else Inl ''invalid character'')\<close>

definition exampleMarshal :: "json \<Rightarrow> string + string" where
  \<open>exampleMarshal v =
     (if v = JObject [] then Inr ''{}''
      else if v = JObject [(''a'', JNumber 1), (''b'', JNumber 2)] then Inr ''{"a":1,"b":2}''
      else Inl ''unsupported value'')\<close>

definition exampleSchemaLoadJSON :: "string \<Rightarrow> string + subSchema" where
  \<open>exampleSchemaLoadJSON text =
     (if text = ''{}'' \<or> text = ''{"a":1,"b":2}'' \<or> text = ''{ "b": 2, "a": 1 }''
      then Inr emptySchema
      else Inl ''invalid character'')\<close>

definition exampleCollaborators :: "json collaborators" where
  "exampleCollaborators =
     \<lparr>GetContractAddressesForChainID =
        (\<lambda>c. if c = 1 then Inr ''0x61935CbDd02287B511119DDb11Aeb42F1593b7Ef''
             else Inl ''invalid chain''),
      canonicaljson_Unmarshal = exampleUnmarshal,
      canonicaljson_Marshal = exampleMarshal,
      schemaLoadJSON = exampleSchemaLoadJSON,
      documentLoadJSON = (\<lambda>text. Inl ''unexpected end of JSON input'')\<rparr>"

text \<open>A filter value with an empty topic cache, for a given chain and schema text.\<close>

definition exampleFilter :: "go_int \<Rightarrow> string \<Rightarrow> Filter" where
  "exampleFilter cid text =
     \<lparr>topic = [], version = 0, chainID = cid, rawCustomOrderSchema = text,
      orderSchema = \<lparr>schemaPool = [], rootSchema = emptySchema\<rparr>,
      messageSchema = \<lparr>schemaPool = [], rootSchema = emptySchema\<rparr>\<rparr>"

section \<open>Notions used in the statements and proofs\<close>

text \<open>
  The input that the scanner sees for an ASCII text, and the texts that consist of ASCII
  characters other than spaces.
\<close>

definition asc :: "string \<Rightarrow> input" where
  "asc s = map (\<lambda>c. (of_char c, [c])) s"

definition plain :: "string \<Rightarrow> bool" where
  "plain s = (\<forall>c\<in>set s. (of_char c :: nat) < 128 \<and> \<not> isSpace (of_char c))"

chapter \<open>Properties\<close>

section \<open>New: the filter that it builds\<close>

lemmas schema_defs = builtInSchemas_def addressSchemaLoader_def wholeNumberSchemaLoader_def
  hexSchemaLoader_def orderSchemaLoader_def signedOrderSchemaLoader_def rootOrderSchemaLoader_def
  rootMessageSchemaLoader_def refSchema_def orderProperties_def typeSchema_def stringPatternSchema_def
  exchangeAddressSchema_def emptySchema_def

lemma newLoader_Inl:
  "GetContractAddressesForChainID env cid = Inl e \<Longrightarrow>
     newLoader env cid s = (None, Some (ContractAddressesError e))"
  by (simp add: newLoader_def loadExchangeAddress_def)

lemma newLoader_Inr:
  "GetContractAddressesForChainID env cid = Inr hex \<Longrightarrow> schemaLoadJSON env s = Inr custom \<Longrightarrow>
     newLoader env cid s = (Some (loaderPool hex custom), None)"
  by (simp add: newLoader_def loadExchangeAddress_def AddSchema_def NewSchemaLoader_def
      loaderPool_def builtInSchemas_def addressSchemaLoader_def wholeNumberSchemaLoader_def
  hexSchemaLoader_def orderSchemaLoader_def signedOrderSchemaLoader_def)

lemma LoadJSON_literal:
  "LoadJSON env (ParsedLoader i s) = Inr (i, s)"
  by simp

lemma resolves_rootOrder:
  "resolves 7 (loaderPool hex emptySchema) (loaderSchema rootOrderSchemaLoader)"
  by (simp add: loaderPool_def schema_defs)

lemma resolves_rootMessage:
  "resolves 8 (loaderPool hex emptySchema @ [(''/rootOrder'', loaderSchema rootOrderSchemaLoader)])
     (loaderSchema rootMessageSchemaLoader)"
  by (simp add: loaderPool_def schema_defs)

lemma length_loaderPool: "length (loaderPool hex custom) = 7"
  by (simp add: loaderPool_def builtInSchemas_def)

lemma New_default:
  assumes "GetContractAddressesForChainID env cid = Inr hex"
    and "schemaLoadJSON env s = Inr emptySchema"
  shows "New env cid s =
     Ok \<lparr>topic = [], version = 0, chainID = cid, rawCustomOrderSchema = s,
         orderSchema = \<lparr>schemaPool = loaderPool hex emptySchema,
                        rootSchema = loaderSchema rootOrderSchemaLoader\<rparr>,
         messageSchema = \<lparr>schemaPool = loaderPool hex emptySchema
                             @ [(''/rootOrder'', loaderSchema rootOrderSchemaLoader)],
                          rootSchema = loaderSchema rootMessageSchemaLoader\<rparr>\<rparr>"
proof -
  have c1: "Compile env (loaderPool hex emptySchema) rootOrderSchemaLoader
            = Inr \<lparr>schemaPool = loaderPool hex emptySchema,
                        rootSchema = loaderSchema rootOrderSchemaLoader\<rparr>"
    using resolves_rootOrder [of hex]
    by (simp add: Compile_def length_loaderPool rootOrderSchemaLoader_def)
  have a: "AddSchemas env (loaderPool hex emptySchema) [rootOrderSchemaLoader]
           = Inr (loaderPool hex emptySchema @ [(''/rootOrder'', loaderSchema rootOrderSchemaLoader)])"
    by (simp add: rootOrderSchemaLoader_def)
  have c2: "Compile env (loaderPool hex emptySchema @ [(''/rootOrder'', loaderSchema rootOrderSchemaLoader)])
               rootMessageSchemaLoader
            = Inr \<lparr>schemaPool = loaderPool hex emptySchema
                             @ [(''/rootOrder'', loaderSchema rootOrderSchemaLoader)],
                          rootSchema = loaderSchema rootMessageSchemaLoader\<rparr>"
    using resolves_rootMessage [of hex]
    by (simp add: Compile_def length_loaderPool rootMessageSchemaLoader_def)
  show ?thesis
    by (simp del: AddSchemas.simps add: New_def newLoader_Inr [OF assms] c1 a c2)
qed

section \<open>Topic: the cache\<close>

lemma New_Ok_fields:
  "New env cid s = Ok f \<Longrightarrow> topic f = [] \<and> chainID f = cid \<and> rawCustomOrderSchema f = s"
  by (auto simp: New_def split: prod.splits option.splits sum.splits)

lemma Topic_twice: "Topic env (snd (Topic env f)) = Topic env f"
  by (simp add: Topic_def Let_def generateTopic_def)

lemma fst_Topic_after: "fst (Topic env (afterTopicCalls env n f)) = fst (Topic env f)"
proof (induction n arbitrary: f)
  case 0
  show ?case by simp
next
  case (Suc n)
  have "fst (Topic env (afterTopicCalls env (Suc n) f)) = fst (Topic env (snd (Topic env f)))"
    using Suc.IH [of "snd (Topic env f)"] by simp
  then show ?case by (simp add: Topic_twice)
qed

lemma fmt_d_1: "fmt_d 1 = ''1''"
  by (simp add: fmt_d_def formatInt_def decimalDigits_def)

lemma fmt_d_3: "fmt_d 3 = ''3''"
  by (simp add: fmt_d_def formatInt_def decimalDigits_def)

lemma encode_empty_object: "EncodeToString ''{}'' = ''e30=''"
  by (simp add: encodeSextet_def encodeURL_def padChar_def)

text \<open>
  C6. On a filter whose cache is empty, \<open>Topic\<close> returns what \<open>generateTopic\<close> computes from
  the filter and stores it; on any filter, \<open>Topic\<close> after any number of earlier calls returns
  the string that the first call returned.
\<close>

theorem Topic_memoized:
  "(topic f = [] \<longrightarrow>
      fst (Topic env f) = generateTopic env f \<and> topic (snd (Topic env f)) = generateTopic env f)
   \<and> (\<forall>n. fst (Topic env (afterTopicCalls env n f)) = fst (Topic env f))"
  by (simp add: fst_Topic_after) (simp add: Topic_def)

theorem Topic_memoized_witness:
  "topic (exampleFilter 1 ''{}'') = []
   \<and> fst (Topic exampleCollaborators (exampleFilter 1 ''{}''))
       = ''/0x-orders/version/3/chain/1/schema/e30=''
   \<and> fst (Topic exampleCollaborators
             (afterTopicCalls exampleCollaborators 2 (exampleFilter 1 ''{}'')))
       = ''/0x-orders/version/3/chain/1/schema/e30=''"
proof -
  have g: "generateTopic exampleCollaborators (exampleFilter 1 ''{}'')
           = ''/0x-orders/version/3/chain/1/schema/e30=''"
    by (simp del: EncodeToString.simps
        add: generateTopic_def exampleFilter_def exampleCollaborators_def
        exampleUnmarshal_def exampleMarshal_def unmarshalInto_def marshalHolder_def
        fullTopicFormat_def pubsubTopicVersion_def fmt_d_1 fmt_d_3 encode_empty_object)
  have e: "topic (exampleFilter 1 ''{}'') = []"
    by (simp add: exampleFilter_def)
  from Topic_memoized [of "exampleFilter 1 ''{}''" exampleCollaborators] e g
  show ?thesis by simp
qed

section \<open>Topic: what it leaves alone\<close>

lemma snd_Topic_frame:
  "chainID (snd (Topic env f)) = chainID f
   \<and> rawCustomOrderSchema (snd (Topic env f)) = rawCustomOrderSchema f
   \<and> orderSchema (snd (Topic env f)) = orderSchema f
   \<and> messageSchema (snd (Topic env f)) = messageSchema f"
  by (simp add: Topic_def)

text \<open>
  C10. After any number of calls of \<open>Topic\<close>, the fields \<open>chainID\<close>, \<open>rawCustomOrderSchema\<close>,
  \<open>orderSchema\<close> and \<open>messageSchema\<close> of the filter are what they were.
\<close>

theorem Topic_frame:
  "chainID (afterTopicCalls env n f) = chainID f
   \<and> rawCustomOrderSchema (afterTopicCalls env n f) = rawCustomOrderSchema f
   \<and> orderSchema (afterTopicCalls env n f) = orderSchema f
   \<and> messageSchema (afterTopicCalls env n f) = messageSchema f"
proof (induction n arbitrary: f)
  case 0
  show ?case by simp
next
  case (Suc n)
  show ?case using Suc.IH [of "snd (Topic env f)"] snd_Topic_frame [of env f] by simp
qed

section \<open>generateTopic: a schema text that is not JSON\<close>



section \<open>generateTopic: the topic depends on the canonical form only\<close>

text \<open>
  C4. Two schema texts are semantically equal JSON when \<open>canonicaljson.Unmarshal\<close> decodes
  them to the same value (an object is decoded to a map, so neither white space nor the
  order of the keys is left). The filters that \<open>New\<close> builds from two such texts for the
  same chain have the same topic.
\<close>

theorem Topic_canonical:
  "canonicaljson_Unmarshal env s1 = Inr v \<Longrightarrow> canonicaljson_Unmarshal env s2 = Inr v
   \<Longrightarrow> New env cid s1 = Ok f1 \<Longrightarrow> New env cid s2 = Ok f2
   \<Longrightarrow> fst (Topic env f1) = fst (Topic env f2)"
proof -
  assume u1: "canonicaljson_Unmarshal env s1 = Inr v"
    and u2: "canonicaljson_Unmarshal env s2 = Inr v"
    and n1: "New env cid s1 = Ok f1" and n2: "New env cid s2 = Ok f2"
  from New_Ok_fields [OF n1] New_Ok_fields [OF n2] u1 u2
  show ?thesis
    by (simp add: Topic_def generateTopic_def unmarshalInto_def)
qed


section \<open>New: a chain without contract addresses\<close>

text \<open>
  C2. The claim is that \<open>New\<close> returns the lookup error for such a chain and does not
  crash. \<open>New\<close> does not look at the error of \<open>newLoader\<close> and calls \<open>Compile\<close> on the nil
  loader: the call panics.
\<close>

theorem New_unknown_chain:
  "GetContractAddressesForChainID env cid = Inl e \<Longrightarrow> New env cid s = Panic"
  by (simp add: New_def newLoader_Inl)

theorem New_unknown_chain_witness:
  "GetContractAddressesForChainID exampleCollaborators 666 = Inl ''invalid chain''
   \<and> New exampleCollaborators 666 DefaultCustomOrderSchema = Panic"
proof -
  have l: "GetContractAddressesForChainID exampleCollaborators 666 = Inl ''invalid chain''"
    by (simp add: exampleCollaborators_def)
  from New_unknown_chain [OF l] l show ?thesis by simp
qed

section \<open>NewFromTopic: the version\<close>



text \<open>The two texts differ in white space and in the order of the keys.\<close>

theorem Topic_canonical_witness:
  \<open>canonicaljson_Unmarshal exampleCollaborators ''{"a":1,"b":2}''
      = Inr (JObject [(''a'', JNumber 1), (''b'', JNumber 2)])
   \<and> canonicaljson_Unmarshal exampleCollaborators ''{ "b": 2, "a": 1 }''
      = Inr (JObject [(''a'', JNumber 1), (''b'', JNumber 2)])
   \<and> (\<exists>f1 f2. New exampleCollaborators 1 ''{"a":1,"b":2}'' = Ok f1
        \<and> New exampleCollaborators 1 ''{ "b": 2, "a": 1 }'' = Ok f2
        \<and> fst (Topic exampleCollaborators f1) = fst (Topic exampleCollaborators f2))\<close>
proof -
  have u1: \<open>canonicaljson_Unmarshal exampleCollaborators ''{"a":1,"b":2}''
      = Inr (JObject [(''a'', JNumber 1), (''b'', JNumber 2)])\<close>
    by (simp add: exampleCollaborators_def exampleUnmarshal_def)
  have u2: \<open>canonicaljson_Unmarshal exampleCollaborators ''{ "b": 2, "a": 1 }''
      = Inr (JObject [(''a'', JNumber 1), (''b'', JNumber 2)])\<close>
    by (simp add: exampleCollaborators_def exampleUnmarshal_def)
  have l: "GetContractAddressesForChainID exampleCollaborators 1
           = Inr ''0x61935CbDd02287B511119DDb11Aeb42F1593b7Ef''"
    by (simp add: exampleCollaborators_def)
  have r1: \<open>schemaLoadJSON exampleCollaborators ''{"a":1,"b":2}'' = Inr emptySchema\<close>
    by (simp add: exampleCollaborators_def exampleSchemaLoadJSON_def)
  have r2: \<open>schemaLoadJSON exampleCollaborators ''{ "b": 2, "a": 1 }'' = Inr emptySchema\<close>
    by (simp add: exampleCollaborators_def exampleSchemaLoadJSON_def)
  from Topic_canonical [OF u1 u2 New_default [OF l r1] New_default [OF l r2]] u1 u2
    New_default [OF l r1] New_default [OF l r2]
  show ?thesis by blast
qed

section \<open>encoding/base64: decoding what was encoded\<close>

lemma indexOf_nth:
  "distinct xs \<Longrightarrow> n < length xs \<Longrightarrow> indexOf (xs ! n) xs i = Some (i + n)"
proof (induction xs arbitrary: n i)
  case Nil
  then show ?case by simp
next
  case (Cons x xs)
  show ?case
  proof (cases n)
    case 0
    then show ?thesis by simp
  next
    case (Suc m)
    with Cons.prems have m: "m < length xs" and d: "distinct xs" and nx: "xs ! m \<noteq> x"
      by auto
    from Cons.IH [OF d m, of "Suc i"] nx Suc show ?thesis by simp
  qed
qed

lemma distinct_encodeURL: "distinct encodeURL"
  by (simp add: encodeURL_def)

lemma length_encodeURL: "length encodeURL = 64"
  by (simp add: encodeURL_def)

lemma decodeMap_encodeSextet: "n < 64 \<Longrightarrow> decodeMap (encodeSextet n) = Some n"
  using indexOf_nth [OF distinct_encodeURL, of n 0]
  by (simp add: decodeMap_def encodeSextet_def length_encodeURL)

lemma encodeSextet_mem: "n < 64 \<Longrightarrow> encodeSextet n \<in> set encodeURL"
  by (simp add: encodeSextet_def length_encodeURL)

lemma encodeURL_not_pad: "c \<in> set encodeURL \<Longrightarrow> c \<noteq> padChar"
  by (auto simp: encodeURL_def padChar_def)

lemma encodeURL_not_newline: "c \<in> set encodeURL \<Longrightarrow> c \<noteq> CHR 0x0A \<and> c \<noteq> CHR 0x0D"
  by (auto simp: encodeURL_def)


lemma word_sint_id: "word_of_int (sint (w :: go_int)) = w"
  by simp

lemma sextet_bounds:
  fixes x y z :: nat
  assumes "x < 256" "y < 256" "z < 256"
  shows "x div 4 < 64" "(x mod 4) * 16 + y div 16 < 64" "(y mod 16) * 4 + z div 64 < 64"
    "z mod 64 < 64" "(x mod 4) * 16 < 64" "(y mod 16) * 4 < 64"
  using assms by auto

lemma octet_rebuild:
  fixes x y z :: nat
  assumes "x < 256" "y < 256" "z < 256"
  shows "x div 4 * 4 + ((x mod 4) * 16 + y div 16) div 16 = x"
    "(((x mod 4) * 16 + y div 16) mod 16) * 16 + ((y mod 16) * 4 + z div 64) div 4 = y"
    "(((y mod 16) * 4 + z div 64) mod 4) * 64 + z mod 64 = z"
    "x div 4 * 4 + ((x mod 4) * 16) div 16 = x"
    "(((x mod 4) * 16 + y div 16) mod 16) * 16 + ((y mod 16) * 4) div 4 = y"
  using assms by auto

lemma byte_of_char: "byte (of_char c) = c"
  by (simp add: byte_def)

lemma decodeQuanta_EncodeToString: "decodeQuanta (EncodeToString bs) = Some bs"
proof (induction bs rule: EncodeToString.induct)
  case 1
  show ?case by simp
next
  case (2 a)
  define x :: nat where "x = of_char a"
  have x: "x < 256" by (simp add: x_def)
  have b: "byte (x div 4 * 4 + ((x mod 4) * 16) div 16) = a"
    using octet_rebuild(4) [OF x x x] by (simp add: x_def byte_of_char)
  have "decodeQuanta [encodeSextet (x div 4), encodeSextet ((x mod 4) * 16), padChar, padChar]
        = Some [a]"
    using b sextet_bounds(1,5) [OF x x x]
    by (simp add: decodeMap_encodeSextet)
  then show ?case by (simp add: x_def Let_def)
next
  case (3 a b)
  define x :: nat where "x = of_char a"
  define y :: nat where "y = of_char b"
  have x: "x < 256" and y: "y < 256" by (simp_all add: x_def y_def)
  have b1: "byte (x div 4 * 4 + ((x mod 4) * 16 + y div 16) div 16) = a"
    using octet_rebuild(1) [OF x y y] by (simp add: x_def byte_of_char)
  have b2: "byte ((((x mod 4) * 16 + y div 16) mod 16) * 16 + ((y mod 16) * 4) div 4) = b"
    using octet_rebuild(5) [OF x y y] by (simp add: y_def byte_of_char)
  have np: "encodeSextet ((y mod 16) * 4) \<noteq> padChar"
    using encodeURL_not_pad [OF encodeSextet_mem [OF sextet_bounds(6) [OF x y y]]] .
  have "decodeQuanta [encodeSextet (x div 4), encodeSextet ((x mod 4) * 16 + y div 16),
          encodeSextet ((y mod 16) * 4), padChar] = Some [a, b]"
    using b1 b2 np sextet_bounds(1,2,6) [OF x y y]
    by (simp add: decodeMap_encodeSextet)
  then show ?case by (simp add: x_def y_def Let_def)
next
  case (4 a b c rest)
  define x :: nat where "x = of_char a"
  define y :: nat where "y = of_char b"
  define z :: nat where "z = of_char c"
  have x: "x < 256" and y: "y < 256" and z: "z < 256" by (simp_all add: x_def y_def z_def)
  have b1: "byte (x div 4 * 4 + ((x mod 4) * 16 + y div 16) div 16) = a"
    using octet_rebuild(1) [OF x y z] by (simp add: x_def byte_of_char)
  have b2: "byte ((((x mod 4) * 16 + y div 16) mod 16) * 16 + ((y mod 16) * 4 + z div 64) div 4) = b"
    using octet_rebuild(2) [OF x y z] by (simp add: y_def byte_of_char)
  have b3: "byte ((((y mod 16) * 4 + z div 64) mod 4) * 64 + z mod 64) = c"
    using octet_rebuild(3) [OF x y z] by (simp add: z_def byte_of_char)
  have np2: "encodeSextet ((y mod 16) * 4 + z div 64) \<noteq> padChar"
    using encodeURL_not_pad [OF encodeSextet_mem [OF sextet_bounds(3) [OF x y z]]] .
  have np3: "encodeSextet (z mod 64) \<noteq> padChar"
    using encodeURL_not_pad [OF encodeSextet_mem [OF sextet_bounds(4) [OF x y z]]] .
  have "decodeQuanta (encodeSextet (x div 4) # encodeSextet ((x mod 4) * 16 + y div 16)
          # encodeSextet ((y mod 16) * 4 + z div 64) # encodeSextet (z mod 64)
          # EncodeToString rest) = Some (a # b # c # rest)"
    using b1 b2 b3 np2 np3 sextet_bounds(1,2,3,4) [OF x y z] "4.IH"
    by (simp add: decodeMap_encodeSextet)
  then show ?case by (simp add: x_def y_def z_def Let_def)
qed

lemma EncodeToString_chars: "set (EncodeToString bs) \<subseteq> insert padChar (set encodeURL)"
proof (induction bs rule: EncodeToString.induct)
  case 1
  show ?case by simp
next
  case (2 a)
  have x: "(of_char a :: nat) < 256" by simp
  show ?case using sextet_bounds(1,5) [OF x x x] by (simp add: Let_def encodeSextet_mem)
next
  case (3 a b)
  have x: "(of_char a :: nat) < 256" and y: "(of_char b :: nat) < 256" by simp_all
  show ?case using sextet_bounds(1,2,6) [OF x y y] by (simp add: Let_def encodeSextet_mem)
next
  case (4 a b c rest)
  have x: "(of_char a :: nat) < 256" and y: "(of_char b :: nat) < 256"
    and z: "(of_char c :: nat) < 256" by simp_all
  show ?case using sextet_bounds(1,2,3,4) [OF x y z] "4.IH"
    by (simp add: Let_def encodeSextet_mem)
qed

lemma EncodeToString_empty: "(EncodeToString bs = []) = (bs = [])"
  by (cases bs rule: EncodeToString.cases) (simp_all add: Let_def)

lemma DecodeString_EncodeToString: "DecodeString (EncodeToString bs) = Some bs"
proof -
  have "filter (\<lambda>c. c \<noteq> CHR 0x0A \<and> c \<noteq> CHR 0x0D) (EncodeToString bs) = EncodeToString bs"
    using EncodeToString_chars [of bs] encodeURL_not_newline
    by (intro filter_True) (auto simp: padChar_def)
  then show ?thesis by (simp add: DecodeString_def decodeQuanta_EncodeToString)
qed

section \<open>fmt: scanning what was formatted\<close>

lemma asc_simps: "asc [] = []" "asc (c # cs) = (of_char c, [c]) # asc cs"
  "asc (s @ t) = asc s @ asc t"
  by (simp_all add: asc_def)

lemma DecodeRune_ascii: "(of_char c :: nat) < 128 \<Longrightarrow> DecodeRune (c # cs) = (of_char c, 1)"
  by (simp add: DecodeRune_def)

lemma readRunes_ascii:
  "\<forall>c\<in>set s. (of_char c :: nat) < 128 \<Longrightarrow> readRunes 0 (s @ t) = asc s @ readRunes 0 t"
proof (induction s)
  case Nil
  show ?case by (simp add: asc_simps)
next
  case (Cons c s)
  then have c: "(of_char c :: nat) < 128" and s: "\<forall>c\<in>set s. (of_char c :: nat) < 128"
    by simp_all
  from c have ne: "(of_char c :: nat) \<noteq> RuneError" by (simp add: RuneError_def)
  show ?case using Cons.IH [OF s] ne
    by (simp add: DecodeRune_ascii [OF c] asc_simps)
qed

lemma readRunes_ascii_all:
  "\<forall>c\<in>set s. (of_char c :: nat) < 128 \<Longrightarrow> readRunes 0 s = asc s"
  using readRunes_ascii [of s "[]"] by simp

lemma advance_asc: "advance lit (asc lit @ inp) = Some inp"
  by (induction lit) (simp_all add: asc_simps)

lemma SkipSpace_head:
  "\<not> isSpace r \<Longrightarrow> SkipSpace ((r, b) # rest) = Some ((r, b) # rest)"
  by (auto simp: isSpace_def)

lemma acceptDigits_asc:
  "\<forall>c\<in>set ds. isDigit (of_char c) \<Longrightarrow> (case rest of [] \<Rightarrow> True | (r, b) # rest' \<Rightarrow> \<not> isDigit r)
   \<Longrightarrow> acceptDigits (asc ds @ rest) = (ds, rest)"
proof (induction ds)
  case Nil
  then show ?case by (cases rest) (auto simp: asc_simps)
next
  case (Cons d ds)
  then show ?case by (simp add: asc_simps)
qed

lemma token_asc: "\<forall>c\<in>set s. \<not> isSpace (of_char c) \<Longrightarrow> token (asc s) = s"
  by (induction s) (simp_all add: asc_simps)

lemma convertString_asc:
  "s \<noteq> [] \<Longrightarrow> \<forall>c\<in>set s. \<not> isSpace (of_char c) \<Longrightarrow> convertString (asc s) = Some s"
proof -
  assume ne: "s \<noteq> []" and ns: "\<forall>c\<in>set s. \<not> isSpace (of_char c)"
  from ne obtain c cs where s: "s = c # cs" by (cases s) auto
  with ns have "\<not> isSpace (of_char c)" by simp
  then have "SkipSpace (asc s) = Some (asc s)"
    by (simp add: s asc_simps SkipSpace_head del: SkipSpace.simps)
  moreover have "asc s \<noteq> []" by (simp add: s asc_simps)
  ultimately show ?thesis using token_asc [OF ns]
    by (cases "asc s") (simp_all add: convertString_def)
qed

declare formatUint.simps [simp del]

lemma decimalDigits_props:
  "c \<in> set decimalDigits \<Longrightarrow>
     isDigit (of_char c) \<and> \<not> isSpace (of_char c) \<and> (of_char c :: nat) < 128
     \<and> (of_char c :: nat) \<noteq> 0x2B \<and> (of_char c :: nat) \<noteq> 0x2D"
  by (auto simp: decimalDigits_def isDigit_def isSpace_def)

lemma distinct_decimalDigits: "distinct decimalDigits" and length_decimalDigits: "length decimalDigits = 10"
  by (simp_all add: decimalDigits_def)

lemma formatUint_chars: "set (formatUint n) \<subseteq> set decimalDigits \<and> formatUint n \<noteq> []"
proof (induction n rule: formatUint.induct)
  case (1 n)
  show ?case
  proof (cases "n < 10")
    case True
    then show ?thesis by (simp add: formatUint.simps [of n] length_decimalDigits)
  next
    case False
    with 1 show ?thesis by (simp add: formatUint.simps [of n] length_decimalDigits)
  qed
qed

lemma parseDecimal_append:
  "parseDecimal (xs @ ys) acc =
     (case parseDecimal xs acc of None \<Rightarrow> None | Some a \<Rightarrow> parseDecimal ys a)"
  by (induction xs arbitrary: acc) (simp_all split: option.splits)

lemma parseDecimal_digit: "d < 10 \<Longrightarrow> parseDecimal [decimalDigits ! d] acc = Some (acc * 10 + d)"
  using indexOf_nth [OF distinct_decimalDigits, of d 0]
  by (simp add: length_decimalDigits)

lemma parseDecimal_formatUint: "parseDecimal (formatUint n) 0 = Some n"
proof (induction n rule: formatUint.induct)
  case (1 n)
  show ?case
  proof (cases "n < 10")
    case True
    then show ?thesis by (simp add: formatUint.simps [of n] parseDecimal_digit del: parseDecimal.simps)
  next
    case False
    with 1 show ?thesis
      by (simp add: formatUint.simps [of n] parseDecimal_append parseDecimal_digit
          del: parseDecimal.simps)
  qed
qed

lemma plain_append: "plain (s @ t) = (plain s \<and> plain t)"
  by (auto simp: plain_def)

lemma plain_formatUint: "plain (formatUint n)"
  using formatUint_chars [of n] decimalDigits_props by (auto simp: plain_def)

lemma plain_formatInt: "plain (formatInt i)"
  using plain_formatUint by (simp add: formatInt_def plain_def isSpace_def)

lemma plain_EncodeToString: "plain (EncodeToString bs)"
proof -
  have "\<forall>c\<in>insert padChar (set encodeURL). (of_char c :: nat) < 128 \<and> \<not> isSpace (of_char c)"
    by (simp add: padChar_def encodeURL_def isSpace_def)
  with EncodeToString_chars [of bs] show ?thesis by (auto simp: plain_def)
qed

lemma plain_literals:
  "plain ''/0x-orders/version/''" "plain ''/chain/''" "plain ''chain/''" "plain ''/schema/''"
  by (simp_all add: plain_def isSpace_def)

lemma scanInt_formatInt:
  assumes lo: "- (2 ^ 63) \<le> i" and hi: "i < 2 ^ 63"
    and rest: "case rest of [] \<Rightarrow> True | (r, b) # rest' \<Rightarrow> \<not> isDigit r"
  shows "scanInt (asc (formatInt i) @ rest) = Some (word_of_int i, rest)"
proof (cases "i < 0")
  case True
  define n where "n = nat (- i)"
  have f: "formatInt i = CHR ''-'' # formatUint n"
    using True by (simp add: formatInt_def n_def)
  have digs: "\<forall>c\<in>set (formatUint n). isDigit (of_char c)"
    using formatUint_chars [of n] decimalDigits_props by blast
  have acc: "acceptDigits (asc (formatUint n) @ rest) = (formatUint n, rest)"
    by (rule acceptDigits_asc [OF digs rest])
  have n: "\<not> 2 ^ 63 < n" using lo True by (simp add: n_def)
  have v: "- int n = i" using True by (simp add: n_def)
  have p: "ParseInt True (formatUint n) = Some (word_of_int i)"
    using n v by (simp add: ParseInt_def parseDecimal_formatUint)
  have sk: "SkipSpace ((0x2D, ''-'') # asc (formatUint n) @ rest)
            = Some ((0x2D, ''-'') # asc (formatUint n) @ rest)"
    by (rule SkipSpace_head) (simp add: isSpace_def)
  have ne: "formatUint n \<noteq> []" using formatUint_chars [of n] by simp
  show ?thesis
    using sk acc p ne by (simp add: scanInt_def f asc_simps del: SkipSpace.simps)
next
  case False
  define n where "n = nat i"
  have f: "formatInt i = formatUint n"
    using False by (simp add: formatInt_def n_def)
  have digs: "\<forall>c\<in>set (formatUint n). isDigit (of_char c)"
    using formatUint_chars [of n] decimalDigits_props by blast
  have acc: "acceptDigits (asc (formatUint n) @ rest) = (formatUint n, rest)"
    by (rule acceptDigits_asc [OF digs rest])
  have n: "\<not> 2 ^ 63 \<le> n" using hi False by (simp add: n_def)
  have v: "int n = i" using False by (simp add: n_def)
  have p: "ParseInt False (formatUint n) = Some (word_of_int i)"
    using n v by (simp add: ParseInt_def parseDecimal_formatUint)
  obtain d ds where dd: "formatUint n = d # ds"
    using formatUint_chars [of n] by (cases "formatUint n") auto
  have d: "d \<in> set decimalDigits" using formatUint_chars [of n] dd by simp
  note dp = decimalDigits_props [OF d]
  have sk: "SkipSpace ((of_char d, [d]) # asc ds @ rest) = Some ((of_char d, [d]) # asc ds @ rest)"
    by (rule SkipSpace_head) (simp add: dp)
  have acc': "acceptDigits ((of_char d, [d]) # asc ds @ rest) = (d # ds, rest)"
    using acc by (simp add: dd asc_simps)
  show ?thesis
    using sk acc' p dp
    by (simp add: scanInt_def f dd asc_simps del: SkipSpace.simps acceptDigits.simps)
qed

lemma scanInt_fmt_d:
  assumes "case rest of [] \<Rightarrow> True | (r, b) # rest' \<Rightarrow> \<not> isDigit r"
  shows "scanInt (asc (fmt_d x) @ rest) = Some (x, rest)"
proof -
  have lo: "- (2 ^ 63) \<le> sint x" using sint_ge [of x] by simp
  have hi: "sint x < 2 ^ 63" using sint_lt [of x] by simp
  from scanInt_formatInt [OF lo hi assms] show ?thesis
    by (simp add: fmt_d_def)
qed

lemma plain_ascii: "plain s \<Longrightarrow> \<forall>c\<in>set s. (of_char c :: nat) < 128"
  and plain_nospace: "plain s \<Longrightarrow> \<forall>c\<in>set s. \<not> isSpace (of_char c)"
  by (simp_all add: plain_def)

lemma asc_head_slash:
  "(case asc (CHR ''/'' # s) @ inp of [] \<Rightarrow> True | (r, b) # rest' \<Rightarrow> \<not> isDigit r)"
  by (simp add: asc_simps isDigit_def)

lemma Sscanf_topicChainIDAndSchemaFormat_formatted:
  assumes e: "plain e" and ne: "e \<noteq> []"
  shows "Sscanf_topicChainIDAndSchemaFormat (''/chain/'' @ fmt_d c @ ''/schema/'' @ e) = Some (c, e)"
proof -
  have p: "plain (''/chain/'' @ fmt_d c @ ''/schema/'' @ e)"
    using e plain_formatInt [of "sint c"] plain_literals
    by (simp only: plain_append fmt_d_def simp_thms)
  have r: "readRunes 0 (''/chain/'' @ fmt_d c @ ''/schema/'' @ e)
           = asc ''/chain/'' @ asc (fmt_d c) @ asc ''/schema/'' @ asc e"
    using readRunes_ascii_all [OF plain_ascii [OF p]] by (simp only: asc_simps)
  have s: "scanInt (asc (fmt_d c) @ asc ''/schema/'' @ asc e) = Some (c, asc ''/schema/'' @ asc e)"
    by (rule scanInt_fmt_d) (simp add: asc_simps isDigit_def)
  show ?thesis
    unfolding Sscanf_topicChainIDAndSchemaFormat_def r
    by (simp only: advance_asc s convertString_asc [OF ne plain_nospace [OF e]]
        option.case prod.case)
qed

lemma Sscanf_topicVersionFormat_formatted:
  assumes e: "plain rest"
  shows "Sscanf_topicVersionFormat (''/0x-orders/version/'' @ fmt_d v @ CHR ''/'' # rest)
         = Some (v, CHR ''/'' # rest)"
proof -
  have e': "plain (CHR ''/'' # rest)" using e by (simp add: plain_def isSpace_def)
  have p: "plain (''/0x-orders/version/'' @ fmt_d v @ CHR ''/'' # rest)"
    using e' plain_formatInt [of "sint v"] plain_literals
    by (simp only: plain_append fmt_d_def simp_thms)
  have r: "readRunes 0 (''/0x-orders/version/'' @ fmt_d v @ CHR ''/'' # rest)
           = asc ''/0x-orders/version/'' @ asc (fmt_d v) @ asc (CHR ''/'' # rest)"
    using readRunes_ascii_all [OF plain_ascii [OF p]] by (simp only: asc_simps)
  have s: "scanInt (asc (fmt_d v) @ asc (CHR ''/'' # rest)) = Some (v, asc (CHR ''/'' # rest))"
    by (rule scanInt_fmt_d) (simp add: asc_simps isDigit_def)
  have c: "convertString (asc (CHR ''/'' # rest)) = Some (CHR ''/'' # rest)"
    by (rule convertString_asc [OF _ plain_nospace [OF e']]) simp
  show ?thesis
    unfolding Sscanf_topicVersionFormat_def r
    by (simp only: advance_asc s c option.case prod.case)
qed

lemma parseTopic_fullTopicFormat:
  assumes ne: "bs \<noteq> []"
  shows "parseTopic (fullTopicFormat pubsubTopicVersion c (EncodeToString bs)) = Inr (c, bs)"
proof -
  let ?e = "EncodeToString bs"
  have e: "plain ?e" by (rule plain_EncodeToString)
  have ene: "?e \<noteq> []" using ne by (simp add: EncodeToString_empty)
  have pr: "plain (''chain/'' @ fmt_d c @ ''/schema/'' @ ?e)"
    using e plain_formatInt [of "sint c"] plain_literals
    by (simp only: plain_append fmt_d_def simp_thms)
  have t: "fullTopicFormat pubsubTopicVersion c ?e
           = ''/0x-orders/version/'' @ fmt_d pubsubTopicVersion
             @ CHR ''/'' # (''chain/'' @ fmt_d c @ ''/schema/'' @ ?e)"
    by (simp add: fullTopicFormat_def)
  have v: "Sscanf_topicVersionFormat (fullTopicFormat pubsubTopicVersion c ?e)
           = Some (pubsubTopicVersion, ''/chain/'' @ fmt_d c @ ''/schema/'' @ ?e)"
    unfolding t using Sscanf_topicVersionFormat_formatted [OF pr, of pubsubTopicVersion]
    by simp
  have c: "Sscanf_topicChainIDAndSchemaFormat (''/chain/'' @ fmt_d c @ ''/schema/'' @ ?e)
           = Some (c, ?e)"
    by (rule Sscanf_topicChainIDAndSchemaFormat_formatted [OF e ene])
  show ?thesis
    by (simp only: parseTopic_def v option.case prod.case c DecodeString_EncodeToString
        simp_thms if_False)
qed

section \<open>regexp: what the matcher accepts\<close>

lemma matches_NoMatch: "matches NoMatch w = False"
  by (induction w) simp_all

lemma matches_EmptyMatch: "matches EmptyMatch w = (w = [])"
  by (cases w) (simp_all add: matches_NoMatch)

lemma matches_CharClass: "matches (CharClass cs) w = (\<exists>c\<in>set cs. w = [c])"
  by (cases w) (auto simp: matches_NoMatch matches_EmptyMatch)

lemma matches_AnyChar: "matches AnyChar w = (\<exists>c. w = [c])"
  by (cases w) (auto simp: matches_EmptyMatch)

lemma matches_Alternate: "matches (Alternate r s) w = (matches r w \<or> matches s w)"
  by (induction w arbitrary: r s) simp_all

lemma matches_Concat:
  "matches (Concat r s) w = (\<exists>u v. w = u @ v \<and> matches r u \<and> matches s v)"
proof (induction w arbitrary: r)
  case Nil
  show ?case by simp
next
  case (Cons c w)
  have split: "(\<exists>u v. c # w = u @ v \<and> matches r u \<and> matches s v)
        = ((nullable r \<and> matches (deriv c s) w)
           \<or> (\<exists>u v. w = u @ v \<and> matches (deriv c r) u \<and> matches s v))"
  proof
    assume "\<exists>u v. c # w = u @ v \<and> matches r u \<and> matches s v"
    then obtain u v where uv: "c # w = u @ v" "matches r u" "matches s v" by blast
    show "(nullable r \<and> matches (deriv c s) w)
           \<or> (\<exists>u v. w = u @ v \<and> matches (deriv c r) u \<and> matches s v)"
    proof (cases u)
      case Nil
      with uv show ?thesis by auto
    next
      case (Cons d u')
      with uv have "w = u' @ v" "matches (deriv c r) u'" by auto
      with uv(3) show ?thesis by blast
    qed
  next
    assume "(nullable r \<and> matches (deriv c s) w)
           \<or> (\<exists>u v. w = u @ v \<and> matches (deriv c r) u \<and> matches s v)"
    then show "\<exists>u v. c # w = u @ v \<and> matches r u \<and> matches s v"
    proof
      assume "nullable r \<and> matches (deriv c s) w"
      then have "c # w = [] @ (c # w)" "matches r []" "matches s (c # w)" by simp_all
      then show ?thesis by blast
    next
      assume "\<exists>u v. w = u @ v \<and> matches (deriv c r) u \<and> matches s v"
      then obtain u v where "w = u @ v" "matches (deriv c r) u" "matches s v" by blast
      then have "c # w = (c # u) @ v" "matches r (c # u)" "matches s v" by simp_all
      then show ?thesis by blast
    qed
  qed
  show ?case
    by (simp add: split matches_Alternate Cons.IH) blast
qed

lemma matches_literal: "matches (literal p) w = (w = p)"
  by (induction p arbitrary: w) (auto simp: matches_EmptyMatch matches_Concat matches_CharClass)

lemma matches_repeat_CharClass:
  "matches (repeat n (CharClass cs)) w = (length w = n \<and> set w \<subseteq> set cs)"
proof (induction n arbitrary: w)
  case 0
  show ?case by (auto simp: matches_EmptyMatch)
next
  case (Suc n)
  show ?case
    by (cases w)
      (auto simp: matches_Concat matches_CharClass matches_EmptyMatch matches_NoMatch Suc.IH)
qed

lemma matches_Star_CharClass: "matches (Star (CharClass cs)) w = (set w \<subseteq> set cs)"
proof (induction w)
  case Nil
  show ?case by simp
next
  case (Cons c w)
  show ?case
    by (simp add: matches_Concat matches_EmptyMatch matches_NoMatch Cons.IH)
qed

lemma matches_Star_AnyChar: "matches (Star AnyChar) w"
  by (induction w) (simp_all add: matches_Concat matches_EmptyMatch)

lemma matches_Star_pairs:
  "matches (Star (Concat (CharClass cs) (CharClass cs))) w = (even (length w) \<and> set w \<subseteq> set cs)"
proof (induction w rule: induct_list012)
  case 1
  show ?case by simp
next
  case (2 x)
  show ?case by (simp add: matches_Concat matches_EmptyMatch matches_NoMatch matches_CharClass)
next
  case (3 x y zs)
  have "matches (Star (Concat (CharClass cs) (CharClass cs))) (x # y # zs)
        = (x \<in> set cs \<and> y \<in> set cs \<and> matches (Star (Concat (CharClass cs) (CharClass cs))) zs)"
    by (auto simp: matches_Concat matches_EmptyMatch matches_NoMatch matches_CharClass
        matches_Alternate)
  then show ?case using 3 by auto
qed

lemma MatchString_anchored:
  "MatchString (Regexp True r True) w = matches r w"
  by (simp add: MatchString_def matches_Concat matches_EmptyMatch)

lemma MatchString_search_literal:
  "MatchString (Regexp False (literal p) False) w = (\<exists>u v. w = u @ p @ v)"
  by (auto simp: MatchString_def matches_Concat matches_Star_AnyChar matches_literal)

section \<open>The topic, encoded and decoded\<close>

text \<open>
  C1. Encoding succeeds when \<open>canonicaljson.Unmarshal\<close> decodes the schema text and
  \<open>canonicaljson.Marshal\<close> returns the canonical text, which is a JSON text and so not
  empty. Then the parsing of \<open>NewFromTopic\<close> returns, from the generated topic, the chainID
  of the filter and the canonical text; \<open>NewFromTopic\<close> is \<open>New\<close> on that pair, and a filter
  that it returns holds the pair.
\<close>

theorem topic_round_trip:
  "canonicaljson_Unmarshal env (rawCustomOrderSchema f) = Inr v
   \<Longrightarrow> canonicaljson_Marshal env v = Inr canonical \<Longrightarrow> canonical \<noteq> []
   \<Longrightarrow> parseTopic (generateTopic env f) = Inr (chainID f, canonical)
       \<and> (topic f = [] \<longrightarrow> parseTopic (fst (Topic env f)) = Inr (chainID f, canonical))
       \<and> NewFromTopic env (generateTopic env f) = New env (chainID f) canonical
       \<and> (\<forall>f'. NewFromTopic env (generateTopic env f) = Ok f'
             \<longrightarrow> chainID f' = chainID f \<and> rawCustomOrderSchema f' = canonical)"
proof -
  assume u: "canonicaljson_Unmarshal env (rawCustomOrderSchema f) = Inr v"
    and m: "canonicaljson_Marshal env v = Inr canonical" and ne: "canonical \<noteq> []"
  have g: "generateTopic env f
           = fullTopicFormat pubsubTopicVersion (chainID f) (EncodeToString canonical)"
    by (simp add: generateTopic_def unmarshalInto_def marshalHolder_def u m
        del: EncodeToString.simps)
  have p: "parseTopic (generateTopic env f) = Inr (chainID f, canonical)"
    unfolding g by (rule parseTopic_fullTopicFormat [OF ne])
  have n: "NewFromTopic env (generateTopic env f) = New env (chainID f) canonical"
    by (simp add: NewFromTopic_def p)
  have t: "topic f = [] \<longrightarrow> fst (Topic env f) = generateTopic env f"
    by (simp add: Topic_def)
  have k: "\<forall>f'. NewFromTopic env (generateTopic env f) = Ok f'
             \<longrightarrow> chainID f' = chainID f \<and> rawCustomOrderSchema f' = canonical"
    unfolding n using New_Ok_fields [of env "chainID f" canonical] by blast
  have p': "topic f = [] \<longrightarrow> parseTopic (fst (Topic env f)) = Inr (chainID f, canonical)"
    using t p by simp
  from p p' n k show ?thesis by blast
qed


theorem topic_round_trip_witness:
  \<open>canonicaljson_Unmarshal exampleCollaborators
       (rawCustomOrderSchema (exampleFilter 1 ''{ "b": 2, "a": 1 }''))
     = Inr (JObject [(''a'', JNumber 1), (''b'', JNumber 2)])
   \<and> canonicaljson_Marshal exampleCollaborators (JObject [(''a'', JNumber 1), (''b'', JNumber 2)])
     = Inr ''{"a":1,"b":2}''
   \<and> ''{"a":1,"b":2}'' \<noteq> []
   \<and> topic (exampleFilter 1 ''{ "b": 2, "a": 1 }'') = []
   \<and> parseTopic (fst (Topic exampleCollaborators (exampleFilter 1 ''{ "b": 2, "a": 1 }'')))
     = Inr (1, ''{"a":1,"b":2}'')
   \<and> (\<exists>f'. NewFromTopic exampleCollaborators
               (generateTopic exampleCollaborators (exampleFilter 1 ''{ "b": 2, "a": 1 }''))
             = Ok f'
           \<and> chainID f' = 1 \<and> rawCustomOrderSchema f' = ''{"a":1,"b":2}'')\<close>
proof -
  let ?f = \<open>exampleFilter 1 ''{ "b": 2, "a": 1 }''\<close>
  have u: \<open>canonicaljson_Unmarshal exampleCollaborators (rawCustomOrderSchema ?f)
            = Inr (JObject [(''a'', JNumber 1), (''b'', JNumber 2)])\<close>
    by (simp add: exampleCollaborators_def exampleUnmarshal_def exampleFilter_def)
  have m: \<open>canonicaljson_Marshal exampleCollaborators
              (JObject [(''a'', JNumber 1), (''b'', JNumber 2)]) = Inr ''{"a":1,"b":2}''\<close>
    by (simp add: exampleCollaborators_def exampleMarshal_def)
  have ne: \<open>''{"a":1,"b":2}'' \<noteq> []\<close> by simp
  have c: "chainID ?f = 1" and t: "topic ?f = []" by (simp_all add: exampleFilter_def)
  have l: "GetContractAddressesForChainID exampleCollaborators 1
           = Inr ''0x61935CbDd02287B511119DDb11Aeb42F1593b7Ef''"
    by (simp add: exampleCollaborators_def)
  have r: \<open>schemaLoadJSON exampleCollaborators ''{"a":1,"b":2}'' = Inr emptySchema\<close>
    by (simp add: exampleCollaborators_def exampleSchemaLoadJSON_def)
  note rt = topic_round_trip [OF u m ne]
  have n: \<open>NewFromTopic exampleCollaborators (generateTopic exampleCollaborators ?f)
                   = New exampleCollaborators 1 ''{"a":1,"b":2}''\<close>
    using rt [THEN conjunct2, THEN conjunct2, THEN conjunct1] by (simp only: c)
  have p: \<open>parseTopic (fst (Topic exampleCollaborators ?f)) = Inr (1, ''{"a":1,"b":2}'')\<close>
    using rt [THEN conjunct2, THEN conjunct1, rule_format, OF t] by (simp only: c)
  have ex: \<open>\<exists>f'. NewFromTopic exampleCollaborators (generateTopic exampleCollaborators ?f) = Ok f'
           \<and> chainID f' = 1 \<and> rawCustomOrderSchema f' = ''{"a":1,"b":2}''\<close>
    unfolding n New_default [OF l r] by simp
  show ?thesis
    by (intro conjI) (rule u, rule m, rule ne, rule t, rule p, rule ex)
qed

end
